theory Spec2Isabelle
  imports Main "HOL-Library.AList"
begin

section \<open>Data model of \<open>kapitan/inventory/inventory.py\<close>\<close>

text \<open>
  \<open>InventoryTarget\<close> is a record with the fields of the class. The \<open>parameters\<close>
  dictionary is an association list (only its emptiness is inspected by the inventory); the
  type variable \<open>'v\<close> stands for the values a backend stores.
\<close>

record 'v InventoryTarget =
  name :: string
  path :: string
  parameters :: "(string \<times> 'v) list"
  classes :: "'v list"
  applications :: "'v list"
  exports :: "'v list"

text \<open>
  The registry \<open>targets: dict[str, InventoryTarget]\<close> is an association list in insertion
  order, as a Python dict is: \<open>targets.values()\<close> is read in that order.
\<close>

type_synonym 'v registry = "(string \<times> 'v InventoryTarget) list"

record 'v Inventory =
  inventory_path :: string
  initialised :: bool
  compose_target_name :: bool
  targets :: "'v registry"
  targets_path :: "string option"
  classes_path :: "string option"

text \<open>
  Every \<open>raise\<close> of the module and every exception of the interpreter that its statements
  can throw is a constructor. The first two are the two \<open>InventoryError\<close> sites of the
  module (lines 74 and 106); the next two are the \<open>InventoryError\<close> subclasses reserved for
  a backend.
\<close>

datatype error =
    Conflicting_targets string string string
  | Targets_not_found "string set"
  | InventoryValidationError string
  | InvalidTargetError string
  | KeyError string
  | ValueError string
  | AttributeError string

text \<open>\<open>InventoryTarget(name=name, path=path)\<close>: every other field takes its default.\<close>

definition new_target :: "string \<Rightarrow> string \<Rightarrow> 'v InventoryTarget" where
  "new_target n p =
     \<lparr>name = n, path = p, parameters = [], classes = [], applications = [], exports = []\<rparr>"

section \<open>Paths\<close>

text \<open>
  \<open>os.walk(self.targets_path)\<close> is an input of the model: the list of the triples
  \<open>(root, dirs, files)\<close> it yields, in the order it yields them, with \<open>root\<close> given as
  the list of directory names below \<open>targets_path\<close> (empty for the top directory). Then
  \<open>os.path.relpath(os.path.join(root, file), self.targets_path)\<close> is these names and the
  file name, joined by the separator.
\<close>

type_synonym walk = "(string list \<times> string list \<times> string list) list"

definition relpath :: "string list \<Rightarrow> string \<Rightarrow> string" where
  "relpath root file = foldr (\<lambda>d acc. d @ ''/'' @ acc) root file"

text \<open>\<open>str.rfind\<close> for a single character: the last index, or \<open>-1\<close>.\<close>

definition rfind :: "char \<Rightarrow> string \<Rightarrow> int" where
  "rfind c p =
     (if c \<in> set p then int (length p) - 1 - int (length (takeWhile (\<lambda>x. x \<noteq> c) (rev p)))
      else - 1)"

text \<open>
  \<open>os.path.splitext\<close> (posixpath): the extension starts at the last dot after the last
  separator, unless only dots stand between that separator and the dot.
\<close>

definition splitext :: "string \<Rightarrow> string \<times> string" where
  "splitext p =
     (let sepIndex = rfind (CHR ''/'') p;
          dotIndex = rfind (CHR ''.'') p
      in if dotIndex > sepIndex
            \<and> filter (\<lambda>x. x \<noteq> CHR ''.'') (drop (nat (sepIndex + 1)) (take (nat dotIndex) p)) \<noteq> []
         then (take (nat dotIndex) p, drop (nat dotIndex) p)
         else (p, []))"

text \<open>\<open>name.replace(os.sep, ".")\<close>\<close>

definition replace_sep :: "string \<Rightarrow> string" where
  "replace_sep n = map (\<lambda>x. if x = CHR ''/'' then CHR ''.'' else x) n"

text \<open>Lines 59 to 65: the name, the extension and the path derived for one file.\<close>

definition derive :: "bool \<Rightarrow> string list \<Rightarrow> string \<Rightarrow> string \<times> string \<times> string" where
  "derive compose root file =
     (let p = relpath root file
      in if compose then (replace_sep (fst (splitext p)), snd (splitext p), p)
         else (fst (splitext file), snd (splitext file), p))"

section \<open>Discovery\<close>

text \<open>
  The inner loop of \<open>initialise\<close> over the files of one directory. An exception leaves the
  registry as the loop had it, so the registry is returned in both cases. An
  \<open>InventoryTarget\<close> is always truthy, so \<open>if self.targets.get(target.name)\<close> asks whether
  the name is a key; \<open>self.targets[target.name] = target\<close> is the dict assignment.
\<close>

fun scan_files ::
  "bool \<Rightarrow> string list \<Rightarrow> string list \<Rightarrow> 'v registry \<Rightarrow> error option \<times> 'v registry" where
  "scan_files compose root [] reg = (None, reg)"
| "scan_files compose root (file # files) reg =
     (case derive compose root file of
        (n, ext, p) \<Rightarrow>
          if ext \<noteq> ''.yml'' \<and> ext \<noteq> ''.yaml'' then scan_files compose root files reg
          else (case map_of reg n of
                  Some old \<Rightarrow> (Some (Conflicting_targets n p (path old)), reg)
                | None \<Rightarrow> scan_files compose root files (AList.update n (new_target n p) reg)))"

text \<open>
  The outer loop over the walk. \<open>self.initialised = True\<close> is the last statement of its
  body (line 80): it runs after the files of each directory.
\<close>

fun walk_loop :: "walk \<Rightarrow> 'v Inventory \<Rightarrow> error option \<times> 'v Inventory" where
  "walk_loop [] s = (None, s)"
| "walk_loop ((root, dirs, files) # rest) s =
     (case scan_files (compose_target_name s) root files (targets s) of
        (Some e, reg) \<Rightarrow> (Some e, s\<lparr>targets := reg\<rparr>)
      | (None, reg) \<Rightarrow> walk_loop rest (s\<lparr>targets := reg, initialised := True\<rparr>))"

definition initialise :: "walk \<Rightarrow> 'v Inventory \<Rightarrow> (error + bool) \<times> 'v Inventory" where
  "initialise w s =
     (if \<not> initialised s then
        (case walk_loop w s of
           (Some e, s') \<Rightarrow> (Inl e, s')
         | (None, s') \<Rightarrow> (Inr (initialised s'), s'))
      else (Inr (initialised s), s))"

section \<open>Lookup and render dispatch\<close>

text \<open>
  \<open>render_targets\<close> is abstract: the backend is a parameter of the model. It receives the
  batch, the flag and the inventory, and returns the inventory as it left it, with the
  exception it raised, if any. Each call of it is recorded, with its arguments, in the list
  that \<open>get_targets\<close> returns beside its result and the final inventory.
\<close>

type_synonym 'v render_call = "'v InventoryTarget list \<times> bool"

type_synonym 'v backend =
  "'v InventoryTarget list \<Rightarrow> bool \<Rightarrow> 'v Inventory \<Rightarrow> error option \<times> 'v Inventory"

text \<open>Lines 93 and 94: an empty registry triggers \<open>initialise\<close>, whose value is dropped.\<close>

definition discover :: "walk \<Rightarrow> 'v Inventory \<Rightarrow> error option \<times> 'v Inventory" where
  "discover w s =
     (if targets s = [] then
        (case initialise w s of (Inl e, s1) \<Rightarrow> (Some e, s1) | (Inr b, s1) \<Rightarrow> (None, s1))
      else (None, s))"

text \<open>
  The dict comprehension of line 103, \<open>None\<close> for its \<open>KeyError\<close>: the first absent name
  aborts it, and nothing is assigned.
\<close>

fun lookup_all :: "'v registry \<Rightarrow> string list \<Rightarrow> 'v registry \<Rightarrow> 'v registry option" where
  "lookup_all reg [] acc = Some acc"
| "lookup_all reg (n # ns) acc =
     (case map_of reg n of
        None \<Rightarrow> None
      | Some t \<Rightarrow> lookup_all reg ns (AList.update n t acc))"

text \<open>
  Lines 97 to 106: the local \<open>targets\<close>. It is initialised to \<open>{}\<close> and keeps that value
  when the \<open>KeyError\<close> is swallowed.
\<close>

definition select_targets :: "'v registry \<Rightarrow> string list \<Rightarrow> bool \<Rightarrow> error + 'v registry" where
  "select_targets reg target_names ignore_class_not_found =
     (if target_names = [] then Inr reg
      else (case lookup_all reg target_names [] of
              Some ts \<Rightarrow> Inr ts
            | None \<Rightarrow>
                if \<not> ignore_class_not_found
                then Inl (Targets_not_found (set target_names - set (map fst reg)))
                else Inr []))"

text \<open>Lines 108 to 110.\<close>

definition targets_to_render :: "'v registry \<Rightarrow> 'v InventoryTarget list" where
  "targets_to_render ts = filter (\<lambda>t. parameters t = []) (map snd ts)"

text \<open>
  Lines 96 to 115, from the inventory that lines 93 and 94 leave: the selection, the batch of
  the selected records with empty parameters, the single call of the backend when that
  batch is not empty, and \<open>return self.targets\<close>.
\<close>

definition render_selection ::
  "'v backend \<Rightarrow> string list \<Rightarrow> bool \<Rightarrow> 'v Inventory
     \<Rightarrow> (error + 'v registry) \<times> 'v Inventory \<times> 'v render_call list" where
  "render_selection render_targets target_names ignore_class_not_found s1 =
     (case select_targets (targets s1) target_names ignore_class_not_found of
        Inl e \<Rightarrow> (Inl e, s1, [])
      | Inr ts \<Rightarrow>
          if targets_to_render ts \<noteq> [] then
            (case render_targets (targets_to_render ts) ignore_class_not_found s1 of
               (Some e, s2) \<Rightarrow> (Inl e, s2, [(targets_to_render ts, ignore_class_not_found)])
             | (None, s2) \<Rightarrow>
                 (Inr (targets s2), s2, [(targets_to_render ts, ignore_class_not_found)]))
          else (Inr (targets s1), s1, []))"

definition get_targets ::
  "'v backend \<Rightarrow> walk \<Rightarrow> string list \<Rightarrow> bool \<Rightarrow> 'v Inventory
     \<Rightarrow> (error + 'v registry) \<times> 'v Inventory \<times> 'v render_call list" where
  "get_targets render_targets w target_names ignore_class_not_found s =
     (case discover w s of
        (Some e, s1) \<Rightarrow> (Inl e, s1, [])
      | (None, s1) \<Rightarrow> render_selection render_targets target_names ignore_class_not_found s1)"

text \<open>\<open>get_target\<close>: the returned registry is indexed, which raises \<open>KeyError\<close> on an absent key.\<close>

definition get_target ::
  "'v backend \<Rightarrow> walk \<Rightarrow> string \<Rightarrow> bool \<Rightarrow> 'v Inventory
     \<Rightarrow> (error + 'v InventoryTarget) \<times> 'v Inventory \<times> 'v render_call list" where
  "get_target render_targets w target_name ignore_class_not_found s =
     (case get_targets render_targets w [target_name] ignore_class_not_found s of
        (Inl e, s', cs) \<Rightarrow> (Inl e, s', cs)
      | (Inr reg, s', cs) \<Rightarrow>
          (case map_of reg target_name of
             None \<Rightarrow> (Inl (KeyError target_name), s', cs)
           | Some t \<Rightarrow> (Inr t, s', cs)))"

section \<open>Parameter retrieval\<close>

text \<open>The argument \<open>target_names: str | list[str]\<close> and the two shapes of the result.\<close>

datatype names_arg = Str string | Lst "string list"

datatype 'v params_result =
    Params "(string \<times> 'v) list"
  | Params_by_name "(string \<times> (string \<times> 'v) list) list"

text \<open>
  The comprehension of line 125 iterates over the dict that \<open>get_targets\<close> returns, that is
  over its keys, and unpacks each key into \<open>name, target\<close>. A key that is not two characters
  long raises \<open>ValueError\<close>; a key of two characters binds \<open>target\<close> to a one-character
  string, and \<open>target.parameters\<close> raises \<open>AttributeError\<close>.
\<close>

fun unpack_keys ::
  "string list \<Rightarrow> (string \<times> (string \<times> 'v) list) list
     \<Rightarrow> error + (string \<times> (string \<times> 'v) list) list" where
  "unpack_keys [] acc = Inr acc"
| "unpack_keys (k # ks) acc =
     (if length k \<noteq> 2 then Inl (ValueError k) else Inl (AttributeError (drop 1 k)))"

definition get_parameters ::
  "'v backend \<Rightarrow> walk \<Rightarrow> names_arg \<Rightarrow> bool \<Rightarrow> 'v Inventory
     \<Rightarrow> (error + 'v params_result) \<times> 'v Inventory \<times> 'v render_call list" where
  "get_parameters render_targets w target_names ignore_class_not_found s =
     (case target_names of
        Str n \<Rightarrow>
          (case get_target render_targets w n ignore_class_not_found s of
             (Inl e, s', cs) \<Rightarrow> (Inl e, s', cs)
           | (Inr target, s', cs) \<Rightarrow> (Inr (Params (parameters target)), s', cs))
      | Lst ns \<Rightarrow>
          (case get_targets render_targets w ns False s of
             (Inl e, s', cs) \<Rightarrow> (Inl e, s', cs)
           | (Inr reg, s', cs) \<Rightarrow>
               (case unpack_keys (map fst reg) [] of
                  Inl e \<Rightarrow> (Inl e, s', cs)
                | Inr d \<Rightarrow> (Inr (Params_by_name d), s', cs))))"

section \<open>Index by name\<close>

text \<open>The property \<open>inventory\<close> returns \<open>self.targets\<close>; \<open>__getitem__\<close> indexes it.\<close>

definition inventory :: "'v Inventory \<Rightarrow> 'v registry" where
  "inventory s = targets s"

definition getitem :: "string \<Rightarrow> 'v Inventory \<Rightarrow> error + 'v InventoryTarget" where
  "getitem key s =
     (case map_of (inventory s) key of None \<Rightarrow> Inl (KeyError key) | Some t \<Rightarrow> Inr t)"

section \<open>The definition files of a walk\<close>

text \<open>
  The files that discovery accepts, as the pairs of the name and the path derived for them,
  in the order of the scan; and the registry entries that discovery creates for such pairs.
\<close>

definition candidates_of :: "bool \<Rightarrow> string list \<Rightarrow> string list \<Rightarrow> (string \<times> string) list" where
  "candidates_of compose root files =
     map (\<lambda>(n, ext, p). (n, p))
       (filter (\<lambda>(n, ext, p). ext = ''.yml'' \<or> ext = ''.yaml'') (map (derive compose root) files))"

definition candidates :: "bool \<Rightarrow> walk \<Rightarrow> (string \<times> string) list" where
  "candidates compose w = concat (map (\<lambda>(root, dirs, files). candidates_of compose root files) w)"

definition entries :: "(string \<times> string) list \<Rightarrow> 'v registry" where
  "entries cs = map (\<lambda>(n, p). (n, new_target n p)) cs"

text \<open>The two loops of \<open>initialise\<close> seen as one loop over the accepted files.\<close>

fun register :: "(string \<times> string) list \<Rightarrow> 'v registry \<Rightarrow> error option \<times> 'v registry" where
  "register [] reg = (None, reg)"
| "register ((n, p) # cs) reg =
     (case map_of reg n of
        Some old \<Rightarrow> (Some (Conflicting_targets n p (path old)), reg)
      | None \<Rightarrow> register cs (AList.update n (new_target n p) reg))"

section \<open>Concrete inventories and a stub backend\<close>

text \<open>
  An inventory as the constructor builds it from the defaults, the walk of a targets
  directory that holds \<open>a.yml\<close> and \<open>sub/a.yml\<close>, an inventory whose registry holds the
  unrendered target \<open>a\<close>, one that holds the unrendered targets \<open>a\<close> and \<open>b\<close>, and one
  whose target \<open>a\<close> is rendered and whose target \<open>b\<close> is not.
\<close>

definition fresh :: "string Inventory" where
  "fresh =
     \<lparr>inventory_path = ''inventory'', initialised = False, compose_target_name = False,
      targets = [], targets_path = Some ''inventory/targets'',
      classes_path = Some ''inventory/classes''\<rparr>"

definition walk_a_sub_a :: walk where
  "walk_a_sub_a = [([], [''sub''], [''a.yml'']), ([''sub''], [], [''a.yml''])]"

definition inv_a :: "string Inventory" where
  "inv_a = fresh\<lparr>initialised := True, targets := [(''a'', new_target ''a'' ''a.yml'')]\<rparr>"

definition inv_ab :: "string Inventory" where
  "inv_ab =
     fresh\<lparr>initialised := True,
       targets := [(''a'', new_target ''a'' ''a.yml''), (''b'', new_target ''b'' ''b.yml'')]\<rparr>"

definition inv_rendered :: "string Inventory" where
  "inv_rendered =
     fresh\<lparr>initialised := True,
       targets := [(''a'', (new_target ''a'' ''a.yml'')\<lparr>parameters := [(''k'', ''v'')]\<rparr>),
                   (''b'', new_target ''b'' ''b.yml'')]\<rparr>"

text \<open>
  A backend that never fails: it stores one parameter in every record of the registry that
  is in the batch.
\<close>

definition stub_render :: "string backend" where
  "stub_render batch flag s =
     (None,
      s\<lparr>targets :=
          map (\<lambda>(n, t). if t \<in> set batch then (n, t\<lparr>parameters := [(''target'', name t)]\<rparr>)
                         else (n, t))
            (targets s)\<rparr>)"

section \<open>Facts about lookup and render dispatch\<close>

lemma lookup_all_None:
  "lookup_all reg ns acc = None \<longleftrightarrow> \<not> set ns \<subseteq> fst ` set reg"
proof (induction ns arbitrary: acc)
  case Nil
  then show ?case by simp
next
  case (Cons n ns)
  show ?case
  proof (cases "map_of reg n")
    case None
    then have "n \<notin> fst ` set reg" by (simp add: map_of_eq_None_iff)
    with None show ?thesis by simp
  next
    case (Some t)
    then have "n \<in> fst ` set reg" by (metis map_of_eq_None_iff option.distinct(1))
    with Some Cons.IH show ?thesis by simp
  qed
qed

lemma select_targets_missing:
  assumes "\<not> set ns \<subseteq> fst ` set reg"
  shows "select_targets reg ns ign =
           (if ign then Inr [] else Inl (Targets_not_found (set ns - fst ` set reg)))"
proof -
  from assms have "ns \<noteq> []" by auto
  moreover from assms have "lookup_all reg ns [] = None" by (simp add: lookup_all_None)
  ultimately show ?thesis by (simp add: select_targets_def)
qed

lemma targets_to_render_set:
  "set (targets_to_render ts) = {t \<in> snd ` set ts. parameters t = []}"
  by (auto simp: targets_to_render_def)

lemma targets_to_render_Nil:
  "(targets_to_render ts = []) = (\<forall>t \<in> snd ` set ts. parameters t \<noteq> [])"
  by (auto simp: targets_to_render_def filter_empty_conv)

lemma render_selection_calls:
  assumes "select_targets (targets s1) ns ign = Inr ts"
  shows "snd (snd (render_selection render_targets ns ign s1)) =
           (if targets_to_render ts = [] then [] else [(targets_to_render ts, ign)])"
proof (cases "targets_to_render ts = []")
  case True
  with assms show ?thesis by (simp add: render_selection_def)
next
  case False
  obtain e s2 where "render_targets (targets_to_render ts) ign s1 = (e, s2)"
    by (cases "render_targets (targets_to_render ts) ign s1")
  with assms False show ?thesis
    by (cases e) (simp_all add: render_selection_def)
qed

lemma render_selection_result:
  assumes "render_selection render_targets ns ign s1 = (Inr r, s', cs)"
  shows "r = targets s' \<and>
         (if cs = [] then s' = s1
          else \<exists>b. cs = [(b, ign)] \<and> render_targets b ign s1 = (None, s'))"
proof (cases "select_targets (targets s1) ns ign")
  case (Inl e)
  with assms show ?thesis by (simp add: render_selection_def)
next
  case (Inr ts)
  show ?thesis
  proof (cases "targets_to_render ts = []")
    case True
    with assms Inr show ?thesis by (auto simp: render_selection_def)
  next
    case False
    obtain e s2 where r: "render_targets (targets_to_render ts) ign s1 = (e, s2)"
      by (cases "render_targets (targets_to_render ts) ign s1")
    with assms Inr False show ?thesis
      by (cases e) (auto simp: render_selection_def)
  qed
qed

lemma get_targets_after_discover:
  assumes "discover w s = (None, s1)"
  shows "get_targets render_targets w ns ign s = render_selection render_targets ns ign s1"
  using assms by (simp add: get_targets_def)

lemma get_targets_Inr_discover:
  assumes "get_targets render_targets w ns ign s = (Inr r, s', cs)"
  shows "\<exists>s1. discover w s = (None, s1)
           \<and> render_selection render_targets ns ign s1 = (Inr r, s', cs)"
proof -
  obtain e s1 where d: "discover w s = (e, s1)" by (cases "discover w s")
  with assms show ?thesis by (cases e) (simp_all add: get_targets_def)
qed

lemma get_target_Inr:
  assumes "get_target render_targets w n ign s = (Inr t', s', cs)"
  shows "\<exists>reg. get_targets render_targets w [n] ign s = (Inr reg, s', cs) \<and> map_of reg n = Some t'"
proof -
  obtain x s2 cs2 where g: "get_targets render_targets w [n] ign s = (x, s2, cs2)"
    by (cases "get_targets render_targets w [n] ign s")
  show ?thesis
  proof (cases x)
    case (Inl e)
    with assms g show ?thesis by (simp add: get_target_def)
  next
    case (Inr reg)
    with assms g show ?thesis
      by (cases "map_of reg n") (simp_all add: get_target_def)
  qed
qed

lemma get_parameters_Str_Inr:
  assumes "get_parameters render_targets w (Str n) ign s = (Inr (Params ps), s', cs)"
  shows "\<exists>t'. get_target render_targets w n ign s = (Inr t', s', cs) \<and> parameters t' = ps"
proof -
  obtain x s2 cs2 where g: "get_target render_targets w n ign s = (x, s2, cs2)"
    by (cases "get_target render_targets w n ign s")
  with assms show ?thesis by (cases x) (simp_all add: get_parameters_def)
qed

lemma get_targets_rendered_again:
  assumes "map_of (targets s') n = Some t'" and "parameters t' \<noteq> []"
  shows "get_targets render_targets w [n] ign s' = (Inr (targets s'), s', [])"
proof -
  from assms(1) have ne: "targets s' \<noteq> []" by auto
  from assms(1) have sel: "select_targets (targets s') [n] ign = Inr [(n, t')]"
    by (simp add: select_targets_def)
  from assms(2) have "targets_to_render [(n, t')] = []" by (simp add: targets_to_render_def)
  with ne sel show ?thesis
    by (simp add: get_targets_def discover_def render_selection_def)
qed


section \<open>Facts about discovery\<close>

lemma update_absent:
  "map_of reg n = None \<Longrightarrow> AList.update n v reg = reg @ [(n, v)]"
  by (induction reg) (auto split: if_splits)

lemma map_of_entries:
  "map_of (entries cs) n = map_option (new_target n) (map_of cs n)"
  by (induction cs) (auto simp: entries_def)

lemma entries_snoc: "entries (cs @ [(n, p)]) = entries cs @ [(n, new_target n p)]"
  by (simp add: entries_def)

lemma candidates_of_Cons:
  "candidates_of c root (file # files) =
     (case derive c root file of
        (n, ext, p) \<Rightarrow>
          if ext = ''.yml'' \<or> ext = ''.yaml'' then (n, p) # candidates_of c root files
          else candidates_of c root files)"
  by (simp add: candidates_of_def split: prod.splits)

lemma scan_files_register:
  "scan_files c root files reg = register (candidates_of c root files) reg"
proof (induction files arbitrary: reg)
  case Nil
  show ?case by (simp add: candidates_of_def)
next
  case (Cons f fs)
  obtain n ext p where d: "derive c root f = (n, ext, p)"
    by (cases "derive c root f")
  show ?case
  proof (cases "ext = ''.yml'' \<or> ext = ''.yaml''")
    case True
    with d Cons.IH show ?thesis
      by (cases "map_of reg n") (auto simp: candidates_of_Cons)
  next
    case False
    with d Cons.IH show ?thesis by (simp add: candidates_of_Cons)
  qed
qed

lemma register_append:
  "register (xs @ ys) reg =
     (case register xs reg of (Some e, r) \<Rightarrow> (Some e, r) | (None, r) \<Rightarrow> register ys r)"
proof (induction xs arbitrary: reg)
  case Nil
  show ?case by simp
next
  case (Cons x xs)
  obtain n p where x: "x = (n, p)" by (cases x)
  with Cons.IH show ?case by (cases "map_of reg n") simp_all
qed

lemma candidates_Cons:
  "candidates c ((root, dirs, files) # rest) = candidates_of c root files @ candidates c rest"
  by (simp add: candidates_def)

lemma walk_loop_register:
  "register (candidates (compose_target_name s) w) (targets s) =
     (fst (walk_loop w s), targets (snd (walk_loop w s)))"
proof (induction w arbitrary: s)
  case Nil
  show ?case by (simp add: candidates_def)
next
  case (Cons x rest)
  obtain root dirs files where x: "x = (root, dirs, files)" by (cases x)
  obtain e reg where r: "scan_files (compose_target_name s) root files (targets s) = (e, reg)"
    by (cases "scan_files (compose_target_name s) root files (targets s)")
  show ?case
  proof (cases e)
    case None
    with x r Cons.IH [of "s\<lparr>targets := reg, initialised := True\<rparr>"] show ?thesis
      by (simp add: candidates_Cons register_append scan_files_register [symmetric])
  next
    case (Some err)
    with x r show ?thesis
      by (simp add: candidates_Cons register_append scan_files_register [symmetric])
  qed
qed

lemma register_collision:
  assumes "distinct (map fst seen)" and "\<not> distinct (map fst (seen @ cs))"
  shows "\<exists>m q p xs ys zs.
           seen @ cs = xs @ (m, q) # ys @ (m, p) # zs
           \<and> distinct (map fst (xs @ (m, q) # ys))
           \<and> register cs (entries seen :: 'v registry) =
               (Some (Conflicting_targets m p q), entries (xs @ (m, q) # ys))"
  using assms
proof (induction cs arbitrary: seen)
  case Nil
  then show ?case by simp
next
  case (Cons c cs)
  obtain n p where c: "c = (n, p)" by (cases c)
  show ?case
  proof (cases "map_of seen n")
    case None
    then have fresh_key: "n \<notin> fst ` set seen" by (simp add: map_of_eq_None_iff)
    have reg: "register (c # cs) (entries seen :: 'v registry) =
                 register cs (entries (seen @ [(n, p)]))"
      using None c by (simp add: map_of_entries update_absent entries_snoc)
    have d: "distinct (map fst (seen @ [(n, p)]))"
      using Cons.prems(1) fresh_key by simp
    have nd: "\<not> distinct (map fst ((seen @ [(n, p)]) @ cs))"
      using Cons.prems(2) c by simp
    from Cons.IH [OF d nd] obtain m q p' xs ys zs where
      a: "(seen @ [(n, p)]) @ cs = xs @ (m, q) # ys @ (m, p') # zs"
      and b: "distinct (map fst (xs @ (m, q) # ys))"
      and r: "register cs (entries (seen @ [(n, p)]) :: 'v registry) =
                (Some (Conflicting_targets m p' q), entries (xs @ (m, q) # ys))"
      by blast
    from a c have "seen @ c # cs = xs @ (m, q) # ys @ (m, p') # zs" by simp
    moreover from r reg have "register (c # cs) (entries seen :: 'v registry) =
                (Some (Conflicting_targets m p' q), entries (xs @ (m, q) # ys))" by simp
    ultimately show ?thesis using b by blast
  next
    case (Some q)
    then have "(n, q) \<in> set seen" by (rule map_of_SomeD)
    then obtain xs ys where sp: "seen = xs @ (n, q) # ys" by (meson split_list)
    have "register (c # cs) (entries seen :: 'v registry) =
            (Some (Conflicting_targets n p q), entries seen)"
      using Some c by (simp add: map_of_entries new_target_def)
    moreover have "seen @ c # cs = xs @ (n, q) # ys @ (n, p) # cs"
      using sp c by simp
    moreover have "distinct (map fst (xs @ (n, q) # ys))"
      using Cons.prems(1) sp by simp
    ultimately show ?thesis using sp by blast
  qed
qed

lemma register_collision_Nil:
  assumes "\<not> distinct (map fst cs)"
  shows "\<exists>m q p xs ys zs.
           cs = xs @ (m, q) # ys @ (m, p) # zs
           \<and> distinct (map fst (xs @ (m, q) # ys))
           \<and> register cs ([] :: 'v registry) =
               (Some (Conflicting_targets m p q), entries (xs @ (m, q) # ys))"
proof -
  have d: "distinct (map fst ([] :: (string \<times> string) list))" by simp
  from assms have nd: "\<not> distinct (map fst ([] @ cs))" by simp
  have e: "(entries [] :: 'v registry) = []" by (simp add: entries_def)
  from register_collision [OF d nd, where ?'v = 'v] show ?thesis unfolding e append_Nil .
qed

section \<open>Discovery: collisions and the initialised flag\<close>

text \<open>
  C5. Whenever two definition files with different paths derive the same target name,
  \<open>initialise\<close> on a new inventory (flag unset, registry empty) fails with the
  \<open>InventoryError\<close> of line 74. The error is raised at the first file of the scan whose
  name is already registered: it carries that name, the path \<open>p\<close> of that file and the path
  \<open>q\<close> of the earlier file registered under the name, and the registry holds the files
  scanned before it, none overwritten.
\<close>

theorem initialise_collision:
  assumes "\<not> initialised (s :: 'v Inventory)" and "targets s = []"
    and "(n, p1) \<in> set (candidates (compose_target_name s) w)"
    and "(n, p2) \<in> set (candidates (compose_target_name s) w)"
    and "p1 \<noteq> p2"
  shows "\<exists>m q p xs ys zs.
           candidates (compose_target_name s) w = xs @ (m, q) # ys @ (m, p) # zs
           \<and> distinct (map fst (xs @ (m, q) # ys))
           \<and> fst (initialise w s) = Inl (Conflicting_targets m p q)
           \<and> targets (snd (initialise w s)) = entries (xs @ (m, q) # ys)"
proof -
  let ?cs = "candidates (compose_target_name s) w"
  have nd: "\<not> distinct (map fst ?cs)"
  proof
    assume d: "distinct (map fst ?cs)"
    from d assms(3) have "map_of ?cs n = Some p1" by simp
    moreover from d assms(4) have "map_of ?cs n = Some p2" by simp
    ultimately show False using assms(5) by simp
  qed
  from register_collision_Nil [OF nd] obtain m q p xs ys zs where
    sp: "?cs = xs @ (m, q) # ys @ (m, p) # zs"
    and di: "distinct (map fst (xs @ (m, q) # ys))"
    and rg: "register ?cs ([] :: 'v registry) =
               (Some (Conflicting_targets m p q), entries (xs @ (m, q) # ys))"
    by blast
  from rg assms(2) walk_loop_register [of s w]
  have wl: "fst (walk_loop w s) = Some (Conflicting_targets m p q)"
    and tg: "targets (snd (walk_loop w s)) = entries (xs @ (m, q) # ys)"
    by simp_all
  obtain e s' where w: "walk_loop w s = (e, s')" by (cases "walk_loop w s")
  with wl tg assms(1) have "fst (initialise w s) = Inl (Conflicting_targets m p q)"
    and "targets (snd (initialise w s)) = entries (xs @ (m, q) # ys)"
    by (simp_all add: initialise_def)
  with sp di show ?thesis by blast
qed

text \<open>
  C5, the scenario of the specification: with \<open>a.yml\<close> and \<open>sub/a.yml\<close> in compact-name
  mode both files derive the name \<open>a\<close>, and discovery fails naming \<open>sub/a.yml\<close> and
  \<open>a.yml\<close>.
\<close>

theorem initialise_collision_witness:
  "\<not> initialised fresh \<and> targets fresh = []
   \<and> (''a'', ''a.yml'') \<in> set (candidates (compose_target_name fresh) walk_a_sub_a)
   \<and> (''a'', ''sub/a.yml'') \<in> set (candidates (compose_target_name fresh) walk_a_sub_a)
   \<and> ''a.yml'' \<noteq> ''sub/a.yml''
   \<and> (\<exists>m q p xs ys zs.
         candidates (compose_target_name fresh) walk_a_sub_a = xs @ (m, q) # ys @ (m, p) # zs
         \<and> distinct (map fst (xs @ (m, q) # ys))
         \<and> fst (initialise walk_a_sub_a fresh) = Inl (Conflicting_targets m p q)
         \<and> targets (snd (initialise walk_a_sub_a fresh)) = entries (xs @ (m, q) # ys))
   \<and> fst (initialise walk_a_sub_a fresh) =
       Inl (Conflicting_targets ''a'' ''sub/a.yml'' ''a.yml'')"
proof -
  have h1: "\<not> initialised fresh" by code_simp
  have h2: "targets fresh = []" by code_simp
  have h3: "(''a'', ''a.yml'') \<in> set (candidates (compose_target_name fresh) walk_a_sub_a)"
    by code_simp
  have h4: "(''a'', ''sub/a.yml'') \<in> set (candidates (compose_target_name fresh) walk_a_sub_a)"
    by code_simp
  have h5: "''a.yml'' \<noteq> ''sub/a.yml''" by simp
  have v: "fst (initialise walk_a_sub_a fresh) =
             Inl (Conflicting_targets ''a'' ''sub/a.yml'' ''a.yml'')"
    by code_simp
  from initialise_collision [OF h1 h2 h3 h4 h5] h1 h2 h3 h4 h5 v show ?thesis by blast
qed

text \<open>
  C2. The claim fails on the scenario above: \<open>a.yml\<close> is in the top directory, so line 80
  has set the flag when the collision is raised in \<open>sub\<close>. After the failed call the flag
  is true and the registry holds \<open>a\<close> alone.
\<close>

theorem initialise_collision_sets_flag:
  "initialise walk_a_sub_a fresh =
     (Inl (Conflicting_targets ''a'' ''sub/a.yml'' ''a.yml''),
      fresh\<lparr>targets := [(''a'', new_target ''a'' ''a.yml'')], initialised := True\<rparr>)
   \<and> initialised (snd (initialise walk_a_sub_a fresh))
   \<and> fst (initialise walk_a_sub_a (snd (initialise walk_a_sub_a fresh))) = Inr True"
  by code_simp




section \<open>Lookup: missing names\<close>

text \<open>
  C7. When the discovery step of \<open>get_targets\<close> does not fail and leaves a registry that
  lacks at least one requested name, \<open>get_targets\<close> with \<open>ignore_class_not_found\<close> false
  fails with the \<open>InventoryError\<close> of line 106, which carries exactly the set of the
  requested names that are not keys of the registry; the backend is not called.
\<close>

theorem get_targets_missing_raises:
  assumes "discover w s = (None, s1)"
    and "\<not> set ns \<subseteq> fst ` set (targets s1)"
  shows "get_targets render_targets w ns False s =
           (Inl (Targets_not_found {n \<in> set ns. n \<notin> fst ` set (targets s1)}), s1, [])"
proof -
  have "set ns - fst ` set (targets s1) = {n \<in> set ns. n \<notin> fst ` set (targets s1)}" by auto
  with assms show ?thesis
    by (simp add: get_targets_def render_selection_def select_targets_missing)
qed

text \<open>
  C7 on the registry that holds \<open>a\<close> and \<open>b\<close>: requesting \<open>a\<close> and \<open>missing\<close> fails, and
  the set of the error is \<open>{missing}\<close>.
\<close>

theorem get_targets_missing_raises_witness:
  "discover [] inv_ab = (None, inv_ab)
   \<and> \<not> set [''a'', ''missing''] \<subseteq> fst ` set (targets inv_ab)
   \<and> get_targets stub_render [] [''a'', ''missing''] False inv_ab =
       (Inl (Targets_not_found
              {n \<in> set [''a'', ''missing'']. n \<notin> fst ` set (targets inv_ab)}), inv_ab, [])
   \<and> {n \<in> set [''a'', ''missing'']. n \<notin> fst ` set (targets inv_ab)} = {''missing''}"
proof -
  have h1: "discover [] inv_ab = (None, inv_ab)" by code_simp
  have h2: "\<not> set [''a'', ''missing''] \<subseteq> fst ` set (targets inv_ab)" by code_simp
  have v: "{n \<in> set [''a'', ''missing'']. n \<notin> fst ` set (targets inv_ab)} = {''missing''}"
    by (auto simp: inv_ab_def fresh_def)
  from get_targets_missing_raises [OF h1 h2, of stub_render] h1 h2 v show ?thesis by blast
qed

text \<open>
  With \<open>ignore_class_not_found\<close> true and a requested name that the registry lacks, the
  \<open>KeyError\<close> of the comprehension is swallowed and the local \<open>targets\<close> keeps the value
  \<open>{}\<close>: the backend is not called, whatever else was requested.
\<close>

lemma get_targets_ignore_missing:
  assumes "discover w s = (None, s1)"
    and "\<not> set ns \<subseteq> fst ` set (targets s1)"
  shows "get_targets render_targets w ns True s = (Inr (targets s1), s1, [])"
  using assms
  by (simp add: get_targets_def render_selection_def select_targets_missing targets_to_render_def)

text \<open>
  C3. The claim is right and lines 102 to 106 miss it. On the registry that holds the
  unrendered targets \<open>a\<close> and \<open>b\<close>, \<open>get_targets\<close> for \<open>a\<close> and \<open>missing\<close> with the
  flag set raises nothing, but the found and unrendered record \<open>a\<close> is not submitted: the
  backend is not called and \<open>a\<close> is returned with empty parameters. The same request
  without the absent name submits \<open>a\<close> and returns it rendered.
\<close>

theorem get_targets_ignore_missing_drops_found:
  "map_of (targets inv_ab) ''a'' = Some (new_target ''a'' ''a.yml'')
   \<and> parameters (new_target ''a'' ''a.yml'' :: string InventoryTarget) = []
   \<and> get_targets stub_render [] [''a'', ''missing''] True inv_ab =
       (Inr (targets inv_ab), inv_ab, [])
   \<and> get_targets stub_render [] [''a''] True inv_ab =
       (Inr [(''a'', (new_target ''a'' ''a.yml'')\<lparr>parameters := [(''target'', ''a'')]\<rparr>),
             (''b'', new_target ''b'' ''b.yml'')],
        inv_ab\<lparr>targets :=
          [(''a'', (new_target ''a'' ''a.yml'')\<lparr>parameters := [(''target'', ''a'')]\<rparr>),
           (''b'', new_target ''b'' ''b.yml'')]\<rparr>,
        [([new_target ''a'' ''a.yml''], True)])"
  by code_simp

section \<open>Render dispatch and the returned registry\<close>

text \<open>
  C6. When \<open>get_targets\<close> resolves a subset \<open>ts\<close> (discovery and lookup raise nothing),
  the batch is the list of exactly the records of \<open>ts\<close> whose parameters are empty, in the
  order of \<open>ts\<close>. When the batch is empty the backend is not applied: the inventory is
  unchanged and its registry is returned. Otherwise the backend is applied once, to that
  batch, the flag and the inventory that discovery left: the final inventory is the one the
  backend returns, and the result is the backend's error or the registry of that inventory.
  A record whose parameters are not empty is in no batch.
\<close>

theorem get_targets_one_batch:
  assumes "discover w s = (None, s1)"
    and "select_targets (targets s1) ns ign = Inr ts"
  shows "get_targets render_targets w ns ign s =
           (if targets_to_render ts = [] then (Inr (targets s1), s1, [])
            else (case render_targets (targets_to_render ts) ign s1 of
                    (Some e, s2) \<Rightarrow> (Inl e, s2, [(targets_to_render ts, ign)])
                  | (None, s2) \<Rightarrow>
                      (Inr (targets s2), s2, [(targets_to_render ts, ign)]))) \<and>
         targets_to_render ts = filter (\<lambda>t. parameters t = []) (map snd ts) \<and>
         (targets_to_render ts = []) = (\<forall>t \<in> snd ` set ts. parameters t \<noteq> []) \<and>
         set (targets_to_render ts) = {t \<in> snd ` set ts. parameters t = []}"
proof -
  have "get_targets render_targets w ns ign s = render_selection render_targets ns ign s1"
    using assms(1) by (rule get_targets_after_discover)
  also have "\<dots> =
           (if targets_to_render ts = [] then (Inr (targets s1), s1, [])
            else (case render_targets (targets_to_render ts) ign s1 of
                    (Some e, s2) \<Rightarrow> (Inl e, s2, [(targets_to_render ts, ign)])
                  | (None, s2) \<Rightarrow>
                      (Inr (targets s2), s2, [(targets_to_render ts, ign)])))"
    using assms(2) by (simp add: render_selection_def)
  finally show ?thesis
    by (simp add: targets_to_render_Nil targets_to_render_set) (simp add: targets_to_render_def)
qed

text \<open>
  C6 on the registry whose target \<open>a\<close> is rendered and whose target \<open>b\<close> is not: requesting
  both applies the backend to the one batch that holds \<open>b\<close> alone, and \<open>b\<close> comes back
  rendered; requesting \<open>a\<close> applies no backend and leaves the inventory as it was.
\<close>

theorem get_targets_one_batch_witness:
  "discover [] inv_rendered = (None, inv_rendered)
   \<and> select_targets (targets inv_rendered) [''a'', ''b''] False = Inr (targets inv_rendered)
   \<and> (get_targets stub_render [] [''a'', ''b''] False inv_rendered =
         (if targets_to_render (targets inv_rendered) = []
          then (Inr (targets inv_rendered), inv_rendered, [])
          else (case stub_render (targets_to_render (targets inv_rendered)) False inv_rendered of
                  (Some e, s2) \<Rightarrow>
                    (Inl e, s2, [(targets_to_render (targets inv_rendered), False)])
                | (None, s2) \<Rightarrow>
                    (Inr (targets s2), s2,
                     [(targets_to_render (targets inv_rendered), False)]))) \<and>
       targets_to_render (targets inv_rendered) =
         filter (\<lambda>t. parameters t = []) (map snd (targets inv_rendered)) \<and>
       (targets_to_render (targets inv_rendered) = []) =
         (\<forall>t \<in> snd ` set (targets inv_rendered). parameters t \<noteq> []) \<and>
       set (targets_to_render (targets inv_rendered)) =
         {t \<in> snd ` set (targets inv_rendered). parameters t = []})
   \<and> get_targets stub_render [] [''a'', ''b''] False inv_rendered =
       (Inr [(''a'', (new_target ''a'' ''a.yml'')\<lparr>parameters := [(''k'', ''v'')]\<rparr>),
             (''b'', (new_target ''b'' ''b.yml'')\<lparr>parameters := [(''target'', ''b'')]\<rparr>)],
        inv_rendered\<lparr>targets :=
          [(''a'', (new_target ''a'' ''a.yml'')\<lparr>parameters := [(''k'', ''v'')]\<rparr>),
           (''b'', (new_target ''b'' ''b.yml'')\<lparr>parameters := [(''target'', ''b'')]\<rparr>)]\<rparr>,
        [([new_target ''b'' ''b.yml''], False)])
   \<and> get_targets stub_render [] [''a''] False inv_rendered =
       (Inr (targets inv_rendered), inv_rendered, [])"
proof -
  have h1: "discover [] inv_rendered = (None, inv_rendered)" by code_simp
  have h2: "select_targets (targets inv_rendered) [''a'', ''b''] False =
              Inr (targets inv_rendered)"
    by code_simp
  have v1: "get_targets stub_render [] [''a'', ''b''] False inv_rendered =
       (Inr [(''a'', (new_target ''a'' ''a.yml'')\<lparr>parameters := [(''k'', ''v'')]\<rparr>),
             (''b'', (new_target ''b'' ''b.yml'')\<lparr>parameters := [(''target'', ''b'')]\<rparr>)],
        inv_rendered\<lparr>targets :=
          [(''a'', (new_target ''a'' ''a.yml'')\<lparr>parameters := [(''k'', ''v'')]\<rparr>),
           (''b'', (new_target ''b'' ''b.yml'')\<lparr>parameters := [(''target'', ''b'')]\<rparr>)]\<rparr>,
        [([new_target ''b'' ''b.yml''], False)])"
    by code_simp
  have v2: "get_targets stub_render [] [''a''] False inv_rendered =
              (Inr (targets inv_rendered), inv_rendered, [])"
    by code_simp
  from get_targets_one_batch [OF h1 h2, of stub_render] h1 h2 v1 v2 show ?thesis by blast
qed

text \<open>
  C8. When \<open>get_targets\<close> succeeds, the mapping it returns is the whole registry of the
  inventory it leaves. That inventory is the one that the discovery step left when no
  backend call was made, and otherwise the one that the single backend call left.
\<close>

theorem get_targets_returns_registry:
  assumes "get_targets render_targets w ns ign s = (Inr r, s', cs)"
  shows "r = targets s' \<and>
         (\<exists>s1. discover w s = (None, s1) \<and>
            (if cs = [] then s' = s1
             else \<exists>b. cs = [(b, ign)] \<and> render_targets b ign s1 = (None, s')))"
proof -
  from assms obtain s1 where d: "discover w s = (None, s1)"
    and r: "render_selection render_targets ns ign s1 = (Inr r, s', cs)"
    using get_targets_Inr_discover by blast
  from render_selection_result [OF r] d show ?thesis by blast
qed

text \<open>
  C8 on the registry that holds \<open>a\<close> and \<open>b\<close>: requesting \<open>a\<close> alone returns both \<open>a\<close>,
  now rendered, and \<open>b\<close>.
\<close>

theorem get_targets_returns_registry_witness:
  "get_targets stub_render [] [''a''] False inv_ab =
     (Inr [(''a'', (new_target ''a'' ''a.yml'')\<lparr>parameters := [(''target'', ''a'')]\<rparr>),
           (''b'', new_target ''b'' ''b.yml'')],
      inv_ab\<lparr>targets :=
        [(''a'', (new_target ''a'' ''a.yml'')\<lparr>parameters := [(''target'', ''a'')]\<rparr>),
         (''b'', new_target ''b'' ''b.yml'')]\<rparr>,
      [([new_target ''a'' ''a.yml''], False)])
   \<and> [(''a'', (new_target ''a'' ''a.yml'')\<lparr>parameters := [(''target'', ''a'')]\<rparr>),
       (''b'', new_target ''b'' ''b.yml'')] =
      targets (inv_ab\<lparr>targets :=
        [(''a'', (new_target ''a'' ''a.yml'')\<lparr>parameters := [(''target'', ''a'')]\<rparr>),
         (''b'', new_target ''b'' ''b.yml'')]\<rparr>)"
proof -
  have h: "get_targets stub_render [] [''a''] False inv_ab =
     (Inr [(''a'', (new_target ''a'' ''a.yml'')\<lparr>parameters := [(''target'', ''a'')]\<rparr>),
           (''b'', new_target ''b'' ''b.yml'')],
      inv_ab\<lparr>targets :=
        [(''a'', (new_target ''a'' ''a.yml'')\<lparr>parameters := [(''target'', ''a'')]\<rparr>),
         (''b'', new_target ''b'' ''b.yml'')]\<rparr>,
      [([new_target ''a'' ''a.yml''], False)])"
    by code_simp
  from get_targets_returns_registry [OF h] h show ?thesis by blast
qed

section \<open>Parameter retrieval and indexing\<close>

text \<open>
  C9. For a name present in the registry, when \<open>get_parameters\<close> with that single name
  returns the parameters \<open>ps\<close>, then \<open>get_targets\<close> with the one-name list, from the same
  inventory, returns a registry whose record under the name has the parameters \<open>ps\<close>, with
  the same final inventory and the same backend calls. And when \<open>ps\<close> is not empty, a
  \<open>get_targets\<close> that follows the call finds the record with the same \<open>ps\<close>, and calls no
  backend.
\<close>

theorem get_parameters_single:
  assumes "map_of (targets s) n = Some t"
    and "get_parameters render_targets w (Str n) ign s = (Inr (Params ps), s', cs)"
  shows "(\<exists>reg t'. get_targets render_targets w [n] ign s = (Inr reg, s', cs)
            \<and> map_of reg n = Some t' \<and> parameters t' = ps) \<and>
         (ps \<noteq> [] \<longrightarrow>
            (\<exists>reg t'. get_targets render_targets w' [n] ign' s' = (Inr reg, s', [])
               \<and> map_of reg n = Some t' \<and> parameters t' = ps))"
proof -
  from assms(2) obtain t' where gt1: "get_target render_targets w n ign s = (Inr t', s', cs)"
    and ps: "parameters t' = ps"
    using get_parameters_Str_Inr by blast
  from gt1 obtain reg where gt: "get_targets render_targets w [n] ign s = (Inr reg, s', cs)"
    and t': "map_of reg n = Some t'"
    using get_target_Inr by blast
  from gt obtain s1 where "render_selection render_targets [n] ign s1 = (Inr reg, s', cs)"
    using get_targets_Inr_discover by blast
  then have reg: "reg = targets s'"
    using render_selection_result by blast
  have "get_targets render_targets w' [n] ign' s' = (Inr reg, s', [])" if "ps \<noteq> []"
    using that t' ps reg get_targets_rendered_again [of s' n t' render_targets w' ign'] by simp
  with gt t' ps show ?thesis by blast
qed

text \<open>C9 on the registry that holds \<open>a\<close> and \<open>b\<close>, for the name \<open>a\<close>.\<close>

theorem get_parameters_single_witness:
  "map_of (targets inv_ab) ''a'' = Some (new_target ''a'' ''a.yml'')
   \<and> get_parameters stub_render [] (Str ''a'') False inv_ab =
       (Inr (Params [(''target'', ''a'')]),
        inv_ab\<lparr>targets :=
          [(''a'', (new_target ''a'' ''a.yml'')\<lparr>parameters := [(''target'', ''a'')]\<rparr>),
           (''b'', new_target ''b'' ''b.yml'')]\<rparr>,
        [([new_target ''a'' ''a.yml''], False)])
   \<and> (\<exists>reg t'. get_targets stub_render [] [''a''] False inv_ab =
          (Inr reg,
           inv_ab\<lparr>targets :=
             [(''a'', (new_target ''a'' ''a.yml'')\<lparr>parameters := [(''target'', ''a'')]\<rparr>),
              (''b'', new_target ''b'' ''b.yml'')]\<rparr>,
           [([new_target ''a'' ''a.yml''], False)])
        \<and> map_of reg ''a'' = Some t' \<and> parameters t' = [(''target'', ''a'')])
   \<and> (\<exists>reg t'. get_targets stub_render [] [''a''] False
          (inv_ab\<lparr>targets :=
             [(''a'', (new_target ''a'' ''a.yml'')\<lparr>parameters := [(''target'', ''a'')]\<rparr>),
              (''b'', new_target ''b'' ''b.yml'')]\<rparr>) =
          (Inr reg,
           inv_ab\<lparr>targets :=
             [(''a'', (new_target ''a'' ''a.yml'')\<lparr>parameters := [(''target'', ''a'')]\<rparr>),
              (''b'', new_target ''b'' ''b.yml'')]\<rparr>,
           [])
        \<and> map_of reg ''a'' = Some t' \<and> parameters t' = [(''target'', ''a'')])"
proof -
  have h1: "map_of (targets inv_ab) ''a'' = Some (new_target ''a'' ''a.yml'')" by code_simp
  have h2: "get_parameters stub_render [] (Str ''a'') False inv_ab =
       (Inr (Params [(''target'', ''a'')]),
        inv_ab\<lparr>targets :=
          [(''a'', (new_target ''a'' ''a.yml'')\<lparr>parameters := [(''target'', ''a'')]\<rparr>),
           (''b'', new_target ''b'' ''b.yml'')]\<rparr>,
        [([new_target ''a'' ''a.yml''], False)])"
    by code_simp
  have ne: "[(''target'', ''a'')] \<noteq> ([] :: (string \<times> string) list)" by simp
  from get_parameters_single [OF h1 h2, of "[]" False] ne h1 h2 show ?thesis by blast
qed

text \<open>
  The multi-name form returns a mapping only from an empty registry: line 125 iterates over
  the keys of the registry and unpacks each key, which raises on the first key.
\<close>

lemma get_parameters_Lst_Inr:
  assumes "get_parameters render_targets w (Lst ns) ign s = (Inr r, s', cs)"
  shows "targets s' = [] \<and> r = Params_by_name []"
proof -
  obtain x s2 cs2 where g: "get_targets render_targets w ns False s = (x, s2, cs2)"
    by (cases "get_targets render_targets w ns False s")
  show ?thesis
  proof (cases x)
    case (Inl e)
    with assms g show ?thesis by (simp add: get_parameters_def)
  next
    case (Inr reg)
    with g obtain s1 where "render_selection render_targets ns False s1 = (Inr reg, s2, cs2)"
      using get_targets_Inr_discover by blast
    then have reg: "reg = targets s2" using render_selection_result by blast
    show ?thesis
    proof (cases reg)
      case Nil
      with assms g Inr reg show ?thesis by (auto simp: get_parameters_def)
    next
      case (Cons kv rest)
      with assms g Inr show ?thesis by (simp add: get_parameters_def split: if_splits)
    qed
  qed
qed

text \<open>
  C1. The claim is right and line 125 misses it: on the registry whose target \<open>a\<close> has the
  parameters \<open>{k: v}\<close>, \<open>get_parameters\<close> with the list of the one present name \<open>a\<close>
  raises \<open>ValueError\<close> when it unpacks the key \<open>a\<close>, where the claim has the mapping from
  \<open>a\<close> to \<open>{k: v}\<close>.
\<close>

theorem get_parameters_list_raises:
  "map_of (targets inv_rendered) ''a'' =
     Some ((new_target ''a'' ''a.yml'')\<lparr>parameters := [(''k'', ''v'')]\<rparr>)
   \<and> get_parameters stub_render [] (Lst [''a'']) False inv_rendered =
       (Inl (ValueError ''a''), inv_rendered, [])"
  by code_simp

text \<open>
  C4. On the registry that holds the unrendered target \<open>a\<close>, indexing returns the record
  with empty parameters and calls no backend, where \<open>get_targets([name])[name]\<close> returns
  the rendered record. On the new inventory, indexing raises \<open>KeyError\<close>, where
  \<open>get_targets([name])[name]\<close> discovers \<open>a.yml\<close> and returns its rendered record.
\<close>

theorem getitem_skips_render:
  "getitem ''a'' inv_a = Inr (new_target ''a'' ''a.yml'')
   \<and> fst (get_target stub_render [] ''a'' False inv_a) =
       Inr ((new_target ''a'' ''a.yml'')\<lparr>parameters := [(''target'', ''a'')]\<rparr>)
   \<and> getitem ''a'' inv_a \<noteq> fst (get_target stub_render [] ''a'' False inv_a)
   \<and> getitem ''a'' fresh = Inl (KeyError ''a'')
   \<and> fst (get_target stub_render [([], [], [''a.yml''])] ''a'' False fresh) =
       Inr ((new_target ''a'' ''a.yml'')\<lparr>parameters := [(''target'', ''a'')]\<rparr>)"
  by code_simp

end
